theory Spec2Isabelle
  imports Main "HOL-Library.Word"
begin

section \<open>Go values used by package buf\<close>

text \<open>
  A Go \<^verbatim>\<open>byte\<close> is an 8-bit word and an \<^verbatim>\<open>int32\<close> a 32-bit word read in two's
  complement (\<open>sint\<close>); \<open>+\<close> and \<open>-\<close> on it wrap as Go's do. A \<^verbatim>\<open>[]byte\<close> is a list
  of bytes, or \<open>None\<close> for the nil slice. Every region this package creates (\<^verbatim>\<open>make\<close>,
  the pool's allocation) has its capacity equal to its length, and a slice is modelled so.
  The conversion \<^verbatim>\<open>int32(len(x))\<close> is \<open>of_nat\<close>, which keeps the low 32 bits.
\<close>

type_synonym byte = "8 word"
type_synonym int32 = "32 word"
type_synonym bytes = "byte list option"

text \<open>A run-time panic of Go, or the explicit \<^verbatim>\<open>panic("Invalid slice")\<close> of Resize.\<close>

datatype panic = InvalidSlice | SliceBounds | IndexRange | MakeLen

text \<open>The error values the package returns: \<^verbatim>\<open>newError("buffer full")\<close>, \<^verbatim>\<open>io.EOF\<close>, and
  whatever an external reader reports.\<close>

datatype error = BufferFull | EOF | ReaderError

definition go_len :: "bytes \<Rightarrow> nat" where
  "go_len s = (case s of None \<Rightarrow> 0 | Some xs \<Rightarrow> length xs)"

definition elems :: "bytes \<Rightarrow> byte list" where
  "elems s = (case s of None \<Rightarrow> [] | Some xs \<Rightarrow> xs)"

text \<open>The slice expression \<^verbatim>\<open>s[lo:hi]\<close>: Go panics unless \<open>0 \<le> lo \<le> hi \<le> cap(s)\<close>.
  The bound here is the length: it is the capacity of every region the package makes,
  and a slice that a caller hands to \<^verbatim>\<open>As\<close> is taken without spare capacity. On every
  buffer whose \<open>end\<close> is at most \<open>len(v)\<close> the two bounds give the same result.\<close>

definition slice :: "byte list \<Rightarrow> int \<Rightarrow> int \<Rightarrow> panic + byte list" where
  "slice xs lo hi =
     (if 0 \<le> lo \<and> lo \<le> hi \<and> hi \<le> int (length xs)
      then Inr (take (nat (hi - lo)) (drop (nat lo) xs))
      else Inl SliceBounds)"

text \<open>The index expression \<^verbatim>\<open>s[i]\<close>: Go panics unless \<open>0 \<le> i < len(s)\<close>.\<close>

definition index :: "byte list \<Rightarrow> int \<Rightarrow> panic + byte" where
  "index xs i = (if 0 \<le> i \<and> i < int (length xs) then Inr (xs ! nat i) else Inl IndexRange)"

text \<open>\<^verbatim>\<open>copy(dst, src)\<close> overwrites the first \<open>min (len dst) (len src)\<close> bytes of \<open>dst\<close>
  with those of \<open>src\<close> and returns that count. The model returns the new content of
  \<open>dst\<close> with the count.\<close>

definition go_copy :: "byte list \<Rightarrow> byte list \<Rightarrow> byte list \<times> nat" where
  "go_copy dst src =
     (let n = min (length dst) (length src) in (take n src @ drop n dst, n))"

text \<open>A slice \<^verbatim>\<open>s[lo:hi]\<close> shares its memory with \<open>s\<close>: what is written through the
  view \<open>w\<close> that starts at offset \<open>lo\<close> is written back into the region.\<close>

definition store :: "bytes \<Rightarrow> nat \<Rightarrow> byte list \<Rightarrow> bytes" where
  "store s lo w = map_option (\<lambda>xs. take lo xs @ w @ drop (lo + length w) xs) s"

section \<open>The pool\<close>

text \<open>\<^verbatim>\<open>const Size = 8192\<close>, the size of a regular buffer.\<close>

definition Size :: int32 where
  "Size = 8192"

text \<open>
  \<^verbatim>\<open>var pool = bytespool.GetPool(Size)\<close>. Package bytespool is not among the sources;
  the spec describes the pool by two operations, \<open>acquire() -> region\<close>, which returns
  a region of the pool's fixed size and never fails, and \<open>release(region)\<close>. The state
  of the pool is the list of the regions it holds. A region that went through the pool
  keeps its old content.
\<close>

type_synonym pool = "bytes list"

text \<open>Modelled from the spec: \<^verbatim>\<open>pool.Put\<close> of package bytespool, the spec's
  \<open>release(region)\<close>. The region joins the regions the pool holds.\<close>

definition pool_Put :: "bytes \<Rightarrow> pool \<Rightarrow> pool" where
  "pool_Put p pl = p # pl"

text \<open>Modelled from the spec: \<^verbatim>\<open>pool.Get\<close> of package bytespool, the spec's
  \<open>acquire()\<close>. It hands out the region returned last, or a new region of \<open>Size\<close>
  bytes when the pool holds none.\<close>

definition pool_Get :: "pool \<Rightarrow> bytes \<times> pool" where
  "pool_Get pl =
     (case pl of [] \<Rightarrow> (Some (replicate (unat Size) 0), []) | p # ps \<Rightarrow> (p, ps))"

text \<open>Every region the pool holds is one of the pool's fixed size.\<close>

definition pool_ok :: "pool \<Rightarrow> bool" where
  "pool_ok pl = list_all (\<lambda>p. p \<noteq> None \<and> go_len p = unat Size) pl"

section \<open>Buffer\<close>

text \<open>
  The struct \<^verbatim>\<open>Buffer\<close>. Its fields \<^verbatim>\<open>v\<close>, \<^verbatim>\<open>start\<close>, \<^verbatim>\<open>end\<close>, \<^verbatim>\<open>out\<close> carry the
  prefix \<open>b_\<close> here. \<open>Endpoint\<close> is a pointer the package never follows: an optional
  address.
\<close>

record Buffer =
  b_v :: bytes
  b_start :: int32
  b_end :: int32
  b_out :: bool
  Endpoint :: "nat option"

subsection \<open>Constructors\<close>

definition New :: "pool \<Rightarrow> Buffer \<times> pool" where
  "New pl =
     (let (r, pl') = pool_Get pl
      in (\<lparr>b_v = r, b_start = 0, b_end = 0, b_out = False, Endpoint = None\<rparr>, pl'))"

definition StackNew :: "pool \<Rightarrow> Buffer \<times> pool" where
  "StackNew pl =
     (let (r, pl') = pool_Get pl
      in (\<lparr>b_v = r, b_start = 0, b_end = 0, b_out = False, Endpoint = None\<rparr>, pl'))"

definition As :: "bytes \<Rightarrow> Buffer" where
  "As data = \<lparr>b_v = data, b_start = 0, b_end = 0, b_out = True, Endpoint = None\<rparr>"

definition Get :: "int32 \<Rightarrow> pool \<Rightarrow> Buffer \<times> pool" where
  "Get sz pl =
     (if sz \<le>s Size then New pl
      else (\<lparr>b_v = Some (replicate (nat (sint sz)) 0), b_start = 0, b_end = 0,
             b_out = True, Endpoint = None\<rparr>, pl))"

subsection \<open>Cursors\<close>

definition Clear :: "Buffer \<Rightarrow> Buffer" where
  "Clear b = b\<lparr>b_start := 0, b_end := 0\<rparr>"

text \<open>Len, IsEmpty, IsFull and Release test their receiver against nil: they take the
  pointer, \<open>None\<close> for nil.\<close>

fun Len :: "Buffer option \<Rightarrow> int32" where
  "Len None = 0"
| "Len (Some b) = b_end b - b_start b"

definition IsEmpty :: "Buffer option \<Rightarrow> bool" where
  "IsEmpty p = (Len p = 0)"

fun IsFull :: "Buffer option \<Rightarrow> bool" where
  "IsFull None = False"
| "IsFull (Some b) = (b_end b = of_nat (go_len (b_v b)))"

text \<open>Release returns the buffer the pointer refers to after the call, and the pool.\<close>

fun Release :: "Buffer option \<Rightarrow> pool \<Rightarrow> Buffer option \<times> pool" where
  "Release None pl = (None, pl)"
| "Release (Some b) pl =
     (if b_v b = None \<or> b_out b then (Some b, pl)
      else (let p = b_v b;
                b1 = b\<lparr>b_v := None\<rparr>;
                b2 = Clear b1
            in (Some b2, pool_Put p pl)))"

subsection \<open>Access to the window\<close>

definition Byte :: "Buffer \<Rightarrow> int32 \<Rightarrow> panic + byte" where
  "Byte b i = index (elems (b_v b)) (sint (b_start b + i))"

definition SetByte :: "Buffer \<Rightarrow> int32 \<Rightarrow> byte \<Rightarrow> panic + Buffer" where
  "SetByte b i x =
     (let k = sint (b_start b + i)
      in if 0 \<le> k \<and> k < int (go_len (b_v b))
         then Inr (b\<lparr>b_v := map_option (\<lambda>xs. xs[nat k := x]) (b_v b)\<rparr>)
         else Inl IndexRange)"

definition Bytes :: "Buffer \<Rightarrow> panic + byte list" where
  "Bytes b = slice (elems (b_v b)) (sint (b_start b)) (sint (b_end b))"

definition normalize :: "Buffer \<Rightarrow> int32 \<Rightarrow> int32" where
  "normalize b i = (if i <s 0 then i + Len (Some b) else i)"

definition BytesRange :: "Buffer \<Rightarrow> int32 \<Rightarrow> int32 \<Rightarrow> panic + byte list" where
  "BytesRange b from to =
     (let from1 = normalize b from; to1 = normalize b to
      in slice (elems (b_v b)) (sint (b_start b + from1)) (sint (b_start b + to1)))"

definition BytesFrom :: "Buffer \<Rightarrow> int32 \<Rightarrow> panic + byte list" where
  "BytesFrom b from =
     (let from1 = normalize b from
      in slice (elems (b_v b)) (sint (b_start b + from1)) (sint (b_end b)))"

definition BytesTo :: "Buffer \<Rightarrow> int32 \<Rightarrow> panic + byte list" where
  "BytesTo b to =
     (let to1 = normalize b to
      in slice (elems (b_v b)) (sint (b_start b)) (sint (b_start b + to1)))"

definition Resize :: "Buffer \<Rightarrow> int32 \<Rightarrow> int32 \<Rightarrow> panic + Buffer" where
  "Resize b from to =
     (let from1 = normalize b from; to1 = normalize b to
      in if to1 <s from1 then Inl InvalidSlice
         else Inr (b\<lparr>b_end := b_start b + to1, b_start := b_start b + from1\<rparr>))"

definition Advance :: "Buffer \<Rightarrow> int32 \<Rightarrow> Buffer" where
  "Advance b from = (let from1 = normalize b from in b\<lparr>b_start := b_start b + from1\<rparr>)"

subsection \<open>Growth\<close>

text \<open>
  Require. The call \<^verbatim>\<open>copy(b.v[b.start:b.end], nb[b.start:b.end])\<close> has the old region's
  window as its destination and the new region's as its source; the model keeps the
  arguments in the source's order. \<^verbatim>\<open>make\<close> panics on a negative length. The log entry
  written on the way out of the pool is not part of the state.
\<close>

definition Require :: "Buffer \<Rightarrow> int32 \<Rightarrow> pool \<Rightarrow> panic + (Buffer \<times> pool)" where
  "Require b requiredLength pl =
     (if requiredLength \<le>s of_nat (go_len (b_v b)) then Inr (b, pl)
      else if requiredLength <s 0 then Inl MakeLen
      else
        let nb = replicate (nat (sint requiredLength)) 0 in
        case slice (elems (b_v b)) (sint (b_start b)) (sint (b_end b)) of
          Inl e \<Rightarrow> Inl e
        | Inr dst \<Rightarrow>
            (case slice nb (sint (b_start b)) (sint (b_end b)) of
               Inl e \<Rightarrow> Inl e
             | Inr src \<Rightarrow>
                 let old = store (b_v b) (nat (sint (b_start b))) (fst (go_copy dst src))
                 in if \<not> b_out b
                    then Inr (b\<lparr>b_out := True, b_v := Some nb\<rparr>, pool_Put old pl)
                    else Inr (b\<lparr>b_v := Some nb\<rparr>, pl)))"

definition Extend :: "Buffer \<Rightarrow> int32 \<Rightarrow> pool \<Rightarrow> panic + (byte list \<times> Buffer \<times> pool)" where
  "Extend b n pl =
     (let end1 = b_end b + n in
      case Require b end1 pl of
        Inl e \<Rightarrow> Inl e
      | Inr (b1, pl1) \<Rightarrow>
          (case slice (elems (b_v b1)) (sint (b_end b1)) (sint end1) of
             Inl e \<Rightarrow> Inl e
           | Inr ext \<Rightarrow> Inr (ext, b1\<lparr>b_end := end1\<rparr>, pl1)))"

subsection \<open>Stream adapters\<close>

text \<open>Write returns \<^verbatim>\<open>(nBytes, nil)\<close>: the count, no error, the buffer and the pool.\<close>

definition Write ::
  "Buffer \<Rightarrow> byte list \<Rightarrow> pool \<Rightarrow> panic + ((nat \<times> error option) \<times> Buffer \<times> pool)" where
  "Write b data pl =
     (case Require b (b_end b + of_nat (length data)) pl of
        Inl e \<Rightarrow> Inl e
      | Inr (b1, pl1) \<Rightarrow>
          (case slice (elems (b_v b1)) (sint (b_end b1)) (int (go_len (b_v b1))) of
             Inl e \<Rightarrow> Inl e
           | Inr dst \<Rightarrow>
               let (dst', nBytes) = go_copy dst data
               in Inr ((nBytes, None),
                       b1\<lparr>b_v := store (b_v b1) (nat (sint (b_end b1))) dst',
                          b_end := b_end b1 + of_nat nBytes\<rparr>,
                       pl1)))"

definition WriteByte :: "Buffer \<Rightarrow> byte \<Rightarrow> panic + (error option \<times> Buffer)" where
  "WriteByte b x =
     (if IsFull (Some b) then Inr (Some BufferFull, b)
      else let k = sint (b_end b)
           in if 0 \<le> k \<and> k < int (go_len (b_v b))
              then Inr (None, b\<lparr>b_v := map_option (\<lambda>xs. xs[nat k := x]) (b_v b),
                                 b_end := b_end b + 1\<rparr>)
              else Inl IndexRange)"

definition WriteString ::
  "Buffer \<Rightarrow> string \<Rightarrow> pool \<Rightarrow> panic + ((nat \<times> error option) \<times> Buffer \<times> pool)" where
  "WriteString b s pl = Write b (map of_char s) pl"

text \<open>Read returns the count and the error, the destination after the copy, and the
  buffer.\<close>

definition Read ::
  "Buffer \<Rightarrow> byte list \<Rightarrow> panic + ((nat \<times> error option) \<times> byte list \<times> Buffer)" where
  "Read b data =
     (if Len (Some b) = 0 then Inr ((0, Some EOF), data, b)
      else
        case slice (elems (b_v b)) (sint (b_start b)) (sint (b_end b)) of
          Inl e \<Rightarrow> Inl e
        | Inr src \<Rightarrow>
            let (data', nBytes) = go_copy data src
            in if (of_nat nBytes :: int32) = Len (Some b)
               then Inr ((nBytes, None), data', Clear b)
               else Inr ((nBytes, None), data',
                         b\<lparr>b_start := b_start b + of_nat nBytes\<rparr>))"

text \<open>
  An \<^verbatim>\<open>io.Reader\<close> belongs to the caller. One call of its \<^verbatim>\<open>Read\<close> on a destination
  of a given length is modelled by the bytes it delivers and the error it returns; the
  count it reports is the number of bytes delivered. \<^verbatim>\<open>io.ReadFull\<close> is taken the
  same way, as one call with one outcome.
\<close>

type_synonym reader = "nat \<Rightarrow> byte list \<times> error option"

definition ReadFrom :: "Buffer \<Rightarrow> reader \<Rightarrow> panic + ((nat \<times> error option) \<times> Buffer)" where
  "ReadFrom b rd =
     (case slice (elems (b_v b)) (sint (b_end b)) (int (go_len (b_v b))) of
        Inl e \<Rightarrow> Inl e
      | Inr p \<Rightarrow>
          let (got, err) = rd (length p); n = length got
          in Inr ((n, err),
                  b\<lparr>b_v := store (b_v b) (nat (sint (b_end b))) (fst (go_copy p got)),
                    b_end := b_end b + of_nat n\<rparr>))"

definition ReadFullFrom ::
  "Buffer \<Rightarrow> reader \<Rightarrow> int32 \<Rightarrow> pool \<Rightarrow> panic + ((nat \<times> error option) \<times> Buffer \<times> pool)" where
  "ReadFullFrom b rd sz pl =
     (let end1 = b_end b + sz in
      case Require b end1 pl of
        Inl e \<Rightarrow> Inl e
      | Inr (b1, pl1) \<Rightarrow>
          (case slice (elems (b_v b1)) (sint (b_end b1)) (sint end1) of
             Inl e \<Rightarrow> Inl e
           | Inr p \<Rightarrow>
               let (got, err) = rd (length p); n = length got
               in Inr ((n, err),
                       b1\<lparr>b_v := store (b_v b1) (nat (sint (b_end b1))) (fst (go_copy p got)),
                          b_end := b_end b1 + of_nat n\<rparr>,
                       pl1)))"

definition String :: "Buffer \<Rightarrow> panic + string" where
  "String b = (case Bytes b of Inl e \<Rightarrow> Inl e | Inr w \<Rightarrow> Inr (map (\<lambda>x. char_of (unat x)) w))"

definition From :: "byte list \<Rightarrow> pool \<Rightarrow> panic + (Buffer \<times> pool)" where
  "From data pl =
     (let (buffer, pl1) = Get (of_nat (length data)) pl
      in case Write buffer data pl1 of
           Inl e \<Rightarrow> Inl e
         | Inr (r, buffer', pl2) \<Rightarrow> Inr (buffer', pl2))"

section \<open>Sequences of calls\<close>

text \<open>One call on a buffer: the methods of \<^verbatim>\<open>*Buffer\<close>, with their arguments.\<close>

datatype op =
    OpRelease
  | OpClear
  | OpByte int32
  | OpSetByte int32 byte
  | OpBytes
  | OpRequire int32
  | OpExtend int32
  | OpBytesRange int32 int32
  | OpBytesFrom int32
  | OpBytesTo int32
  | OpResize int32 int32
  | OpAdvance int32
  | OpLen
  | OpIsEmpty
  | OpIsFull
  | OpWrite "byte list"
  | OpWriteByte byte
  | OpWriteString string
  | OpRead "byte list"
  | OpReadFrom reader
  | OpReadFullFrom reader int32
  | OpString

text \<open>The effect of one call on the buffer and the pool; the value the call returns is
  dropped. \<open>Inl\<close> is a panic: the call did not complete.\<close>

fun step :: "op \<Rightarrow> Buffer \<times> pool \<Rightarrow> panic + (Buffer \<times> pool)" where
  "step OpRelease (b, pl) =
     (case Release (Some b) pl of (Some b', pl') \<Rightarrow> Inr (b', pl') | (None, pl') \<Rightarrow> Inr (b, pl'))"
| "step OpClear (b, pl) = Inr (Clear b, pl)"
| "step (OpByte i) (b, pl) = (case Byte b i of Inl e \<Rightarrow> Inl e | Inr x \<Rightarrow> Inr (b, pl))"
| "step (OpSetByte i x) (b, pl) =
     (case SetByte b i x of Inl e \<Rightarrow> Inl e | Inr b' \<Rightarrow> Inr (b', pl))"
| "step OpBytes (b, pl) = (case Bytes b of Inl e \<Rightarrow> Inl e | Inr w \<Rightarrow> Inr (b, pl))"
| "step (OpRequire n) (b, pl) = Require b n pl"
| "step (OpExtend n) (b, pl) =
     (case Extend b n pl of Inl e \<Rightarrow> Inl e | Inr (ext, b', pl') \<Rightarrow> Inr (b', pl'))"
| "step (OpBytesRange from to) (b, pl) =
     (case BytesRange b from to of Inl e \<Rightarrow> Inl e | Inr w \<Rightarrow> Inr (b, pl))"
| "step (OpBytesFrom from) (b, pl) =
     (case BytesFrom b from of Inl e \<Rightarrow> Inl e | Inr w \<Rightarrow> Inr (b, pl))"
| "step (OpBytesTo to) (b, pl) =
     (case BytesTo b to of Inl e \<Rightarrow> Inl e | Inr w \<Rightarrow> Inr (b, pl))"
| "step (OpResize from to) (b, pl) =
     (case Resize b from to of Inl e \<Rightarrow> Inl e | Inr b' \<Rightarrow> Inr (b', pl))"
| "step (OpAdvance from) (b, pl) = Inr (Advance b from, pl)"
| "step OpLen (b, pl) = Inr (b, pl)"
| "step OpIsEmpty (b, pl) = Inr (b, pl)"
| "step OpIsFull (b, pl) = Inr (b, pl)"
| "step (OpWrite data) (b, pl) =
     (case Write b data pl of Inl e \<Rightarrow> Inl e | Inr (r, b', pl') \<Rightarrow> Inr (b', pl'))"
| "step (OpWriteByte x) (b, pl) =
     (case WriteByte b x of Inl e \<Rightarrow> Inl e | Inr (r, b') \<Rightarrow> Inr (b', pl))"
| "step (OpWriteString s) (b, pl) =
     (case WriteString b s pl of Inl e \<Rightarrow> Inl e | Inr (r, b', pl') \<Rightarrow> Inr (b', pl'))"
| "step (OpRead dst) (b, pl) =
     (case Read b dst of Inl e \<Rightarrow> Inl e | Inr (r, dst', b') \<Rightarrow> Inr (b', pl))"
| "step (OpReadFrom rd) (b, pl) =
     (case ReadFrom b rd of Inl e \<Rightarrow> Inl e | Inr (r, b') \<Rightarrow> Inr (b', pl))"
| "step (OpReadFullFrom rd sz) (b, pl) =
     (case ReadFullFrom b rd sz pl of Inl e \<Rightarrow> Inl e | Inr (r, b', pl') \<Rightarrow> Inr (b', pl'))"
| "step OpString (b, pl) = (case String b of Inl e \<Rightarrow> Inl e | Inr s \<Rightarrow> Inr (b, pl))"

fun run :: "op list \<Rightarrow> Buffer \<times> pool \<Rightarrow> panic + (Buffer \<times> pool)" where
  "run [] s = Inr s"
| "run (x # xs) s = (case step x s of Inl e \<Rightarrow> Inl e | Inr s' \<Rightarrow> run xs s')"

section \<open>The window invariant\<close>

text \<open>\<open>0 \<le> start \<le> end \<le> len(v)\<close>, the cursors read as signed numbers.\<close>

definition window_inv :: "Buffer \<Rightarrow> bool" where
  "window_inv b =
     (0 \<le> sint (b_start b) \<and> sint (b_start b) \<le> sint (b_end b)
      \<and> sint (b_end b) \<le> int (go_len (b_v b)))"

text \<open>The length of the region is a value of \<^verbatim>\<open>int32\<close>: every region the package
  itself allocates is.\<close>

definition fits_int32 :: "Buffer \<Rightarrow> bool" where
  "fits_int32 b = (go_len (b_v b) < 2 ^ 31)"

definition buffer_ok :: "Buffer \<Rightarrow> bool" where
  "buffer_ok b = (window_inv b \<and> fits_int32 b)"



section \<open>Repeated single-byte writes\<close>

text \<open>WriteByte called once for each byte of a list, up to the first call that returns
  an error: the number of calls that succeeded, the error of the call that did not (if
  any), and the buffer.\<close>

fun WriteByte_repeat :: "byte list \<Rightarrow> Buffer \<Rightarrow> panic + (nat \<times> error option \<times> Buffer)" where
  "WriteByte_repeat [] b = Inr (0, None, b)"
| "WriteByte_repeat (x # xs) b =
     (case WriteByte b x of
        Inl e \<Rightarrow> Inl e
      | Inr (Some err, b') \<Rightarrow> Inr (0, Some err, b')
      | Inr (None, b') \<Rightarrow>
          (case WriteByte_repeat xs b' of
             Inl e \<Rightarrow> Inl e
           | Inr (k, err, b'') \<Rightarrow> Inr (Suc k, err, b'')))"

section \<open>Example buffers\<close>

text \<open>\<^verbatim>\<open>As([]byte{1, 2, 3})\<close> after \<^verbatim>\<open>Extend(3)\<close>: a buffer over caller-owned bytes whose
  window is the three bytes.\<close>

definition buf3 :: Buffer where
  "buf3 = \<lparr>b_v = Some [1, 2, 3], b_start = 0, b_end = 3, b_out = True, Endpoint = None\<rparr>"

text \<open>\<^verbatim>\<open>New()\<close> on a pool that holds no region: a fresh pool-owned buffer.\<close>

definition fresh :: Buffer where
  "fresh = fst (New [])"

text \<open>\<open>fresh\<close> after \<^verbatim>\<open>Write([]byte{1, 2, 3})\<close>; that buffer after \<^verbatim>\<open>Require(8193)\<close>;
  and the same buffer after a second \<^verbatim>\<open>Write\<close>, of 8190 bytes of value 7, in place of
  the \<^verbatim>\<open>Require\<close>.\<close>

definition written3 :: Buffer where
  "written3 = \<lparr>b_v = Some ([1, 2, 3] @ replicate 8189 0), b_start = 0, b_end = 3,
                b_out = False, Endpoint = None\<rparr>"

definition grown3 :: Buffer where
  "grown3 = \<lparr>b_v = Some (replicate 8193 0), b_start = 0, b_end = 3,
              b_out = True, Endpoint = None\<rparr>"

definition regrown :: Buffer where
  "regrown = \<lparr>b_v = Some ([0, 0, 0] @ replicate 8190 7), b_start = 0, b_end = 8193,
               b_out = True, Endpoint = None\<rparr>"

text \<open>What \<^verbatim>\<open>From\<close> returns for \<open>2^31\<close> bytes of value 1.\<close>

definition truncated :: Buffer where
  "truncated = \<lparr>b_v = Some (replicate 8192 1), b_start = 0, b_end = 8192, b_out = False,
                 Endpoint = None\<rparr>"



text \<open>\<^verbatim>\<open>As\<close> over a caller's slice of \<open>2^32\<close> bytes.\<close>

definition huge :: Buffer where
  "huge = As (Some (replicate 4294967296 0))"

section \<open>Facts about the Go values\<close>

lemma sint_of_nat32: "n < 2 ^ 31 \<Longrightarrow> sint (of_nat n :: int32) = int n"
  by (simp add: signed_of_nat signed_take_bit_int_eq_self)

lemma sint_of_nat32i: "int n < 2 ^ 31 \<Longrightarrow> sint (of_nat n :: int32) = int n"
  by (rule sint_of_nat32) simp

lemma sint_add32:
  "- (2 ^ 31) \<le> sint a + sint b \<Longrightarrow> sint a + sint b < 2 ^ 31 \<Longrightarrow>
   sint (a + b :: int32) = sint a + sint b"
  by (simp add: sint_word_ariths signed_take_bit_int_eq_self)

lemma sint_sub32:
  "- (2 ^ 31) \<le> sint a - sint b \<Longrightarrow> sint a - sint b < 2 ^ 31 \<Longrightarrow>
   sint (a - b :: int32) = sint a - sint b"
  by (simp add: sint_word_ariths signed_take_bit_int_eq_self)

lemma sint_inj32: "(a :: int32) = b \<longleftrightarrow> sint a = sint b"
  by (auto simp: signed_word_eqI)

lemma sint_range32: "- (2 ^ 31) \<le> sint (a :: int32) \<and> sint a < 2 ^ 31"
  using sint_ge [of a] sint_lt [of a] by simp

text \<open>\<^verbatim>\<open>int32(len(x))\<close>, when it is not negative, is at most \<^verbatim>\<open>len(x)\<close>.\<close>

lemma sint_of_nat_le:
  assumes "0 \<le> sint (of_nat n :: int32)"
  shows "sint (of_nat n :: int32) \<le> int n"
proof -
  have s: "sint (of_nat n :: int32) = signed_take_bit 31 (int n)"
    by (simp add: signed_of_nat)
  with assms have "\<not> bit (int n) 31"
    by simp
  then have "signed_take_bit 31 (int n) = take_bit 31 (int n)"
    by (rule signed_take_bit_eq_if_positive)
  also have "\<dots> \<le> int n"
    by (simp add: take_bit_int_less_eq_self_iff)
  finally show ?thesis using s by simp
qed

lemma length_elems [simp]: "length (elems s) = go_len s"
  by (simp add: elems_def go_len_def split: option.splits)

lemma slice_Inr:
  "slice xs lo hi = Inr w \<Longrightarrow>
   0 \<le> lo \<and> lo \<le> hi \<and> hi \<le> int (length xs) \<and> length w = nat (hi - lo)"
  by (auto simp: slice_def split: if_splits)

lemma go_copy_length [simp]: "length (fst (go_copy dst src)) = length dst"
  by (simp add: go_copy_def Let_def)

lemma go_copy_count [simp]: "snd (go_copy dst src) = min (length dst) (length src)"
  by (simp add: go_copy_def Let_def)


lemma go_len_update [simp]: "go_len (map_option (\<lambda>xs. xs[k := x]) s) = go_len s"
  by (simp add: go_len_def split: option.splits)

lemma fresh_eq:
  "fresh = \<lparr>b_v = Some (replicate 8192 0), b_start = 0, b_end = 0, b_out = False,
            Endpoint = None\<rparr>"
  by (simp add: fresh_def New_def pool_Get_def Size_def)

section \<open>Release\<close>

text \<open>
  Claim C3, as the code has it. Release tests \<^verbatim>\<open>b.out\<close> before it does anything: on a
  buffer whose region is not pool-owned (\<open>b_out\<close> is true) the call changes nothing.
  The cursors, the region and the pool are what they were; the window is not cleared.
\<close>

theorem Release_not_pool_owned:
  "b_out b \<Longrightarrow> Release (Some b) pl = (Some b, pl)"
  by simp

theorem Release_not_pool_owned_witness:
  "b_out buf3 \<and> Release (Some buf3) [] = (Some buf3, [])"
  using Release_not_pool_owned [of buf3 "[]"] by (simp add: buf3_def)

text \<open>
  Claim C3 as stated fails: \<open>buf3\<close> is reached by \<^verbatim>\<open>As\<close> and \<^verbatim>\<open>Extend\<close>, its region is
  the caller's, and after Release its end cursor is still 3 and its length still 3.
\<close>

theorem Release_keeps_cursors_counterexample:
  "Extend (As (Some [1, 2, 3])) 3 [] = Inr ([1, 2, 3], buf3, [])
   \<and> b_out buf3
   \<and> b_end (the (fst (Release (Some buf3) []))) = 3
   \<and> Len (fst (Release (Some buf3) [])) = 3"
  by (simp add: Extend_def As_def Require_def go_len_def elems_def slice_def buf3_def
      word_sle_eq)

text \<open>
  Claim C5. Release is a total function of the pointer and the pool: no statement on any
  of its paths can panic, and as one call of a sequence it always completes. On a nil
  pointer and on a buffer whose region is nil it changes nothing. A second Release,
  applied to what the first one left, changes nothing either. One call hands at most
  one region to the pool, the buffer's own, and two calls in a row hand over no more
  than that one.
\<close>

theorem Release_idempotent:
  "Release None pl = (None, pl)
   \<and> (b_v b = None \<longrightarrow> Release (Some b) pl = (Some b, pl))
   \<and> Release (fst (Release p pl)) (snd (Release p pl)) = Release p pl
   \<and> (snd (Release p pl) = pl
      \<or> (\<exists>b. p = Some b \<and> snd (Release p pl) = pool_Put (b_v b) pl))
   \<and> length (snd (Release (fst (Release p pl)) (snd (Release p pl)))) \<le> Suc (length pl)
   \<and> (\<exists>s1 s2. step OpRelease (b, pl) = Inr s1 \<and> step OpRelease s1 = Inr s2 \<and> s2 = s1)"
proof -
  have "\<exists>s1 s2. step OpRelease (b, pl) = Inr s1 \<and> step OpRelease s1 = Inr s2 \<and> s2 = s1"
    by (auto simp: Clear_def pool_Put_def Let_def)
  moreover have "Release None pl = (None, pl)
   \<and> (b_v b = None \<longrightarrow> Release (Some b) pl = (Some b, pl))
   \<and> Release (fst (Release p pl)) (snd (Release p pl)) = Release p pl
   \<and> (snd (Release p pl) = pl
      \<or> (\<exists>b. p = Some b \<and> snd (Release p pl) = pool_Put (b_v b) pl))
   \<and> length (snd (Release (fst (Release p pl)) (snd (Release p pl)))) \<le> Suc (length pl)"
    by (cases p) (auto simp: Clear_def pool_Put_def Let_def)
  ultimately show ?thesis by blast
qed

theorem Release_idempotent_witness:
  "b_v (Clear (fresh\<lparr>b_v := None\<rparr>)) = None
   \<and> Release (Some (Clear (fresh\<lparr>b_v := None\<rparr>))) [] = (Some (Clear (fresh\<lparr>b_v := None\<rparr>)), [])
   \<and> Release (fst (Release (Some fresh) [])) (snd (Release (Some fresh) []))
       = Release (Some fresh) []
   \<and> snd (Release (Some fresh) []) = [b_v fresh]"
  using Release_idempotent [of "[]" "Clear (fresh\<lparr>b_v := None\<rparr>)" "Some fresh"]
  by (simp add: fresh_def New_def pool_Get_def Clear_def pool_Put_def)

text \<open>
  Claim C10. After Release of a pool-owned buffer the handle has no region: its length
  is 0, IsFull holds (the end cursor 0 equals the length 0 of the nil region), and
  WriteByte returns the buffer-full error and leaves the handle as it is. The region
  went to the pool. IsFull on a nil pointer is false.
\<close>

theorem stale_handle:
  "\<not> IsFull None \<and>
   (b_v b \<noteq> None \<and> \<not> b_out b \<longrightarrow>
     (\<exists>b'. Release (Some b) pl = (Some b', pool_Put (b_v b) pl)
       \<and> b_v b' = None \<and> Len (Some b') = 0 \<and> IsFull (Some b')
       \<and> WriteByte b' x = Inr (Some BufferFull, b')))"
  by (auto simp: Clear_def Let_def WriteByte_def go_len_def)

theorem stale_handle_witness:
  "b_v fresh \<noteq> None \<and> \<not> b_out fresh
   \<and> (\<exists>b'. Release (Some fresh) [] = (Some b', pool_Put (b_v fresh) [])
       \<and> b_v b' = None \<and> Len (Some b') = 0 \<and> IsFull (Some b')
       \<and> WriteByte b' 7 = Inr (Some BufferFull, b'))"
proof -
  have h: "b_v fresh \<noteq> None \<and> \<not> b_out fresh"
    by (simp add: fresh_def New_def pool_Get_def)
  with stale_handle [of fresh "[]" 7] show ?thesis
    by blast
qed

section \<open>Construction\<close>

text \<open>
  Claim C9. \<^verbatim>\<open>Get(size)\<close> with \<open>size\<close> at most \<open>Size\<close> = 8192 is \<^verbatim>\<open>New()\<close>: the region
  is the one the pool hands out, the buffer is pool-owned and its length is 0. With
  \<open>size\<close> above 8192 the pool is left alone, the region is a new one of exactly \<open>size\<close>
  bytes, the buffer is not pool-owned and its length is 0.
\<close>

theorem Get_sized:
  "(sz \<le>s Size \<longrightarrow>
      Get sz pl = New pl \<and> b_v (fst (New pl)) = fst (pool_Get pl)
      \<and> snd (New pl) = snd (pool_Get pl)
      \<and> \<not> b_out (fst (New pl)) \<and> Len (Some (fst (New pl))) = 0)
   \<and> (Size <s sz \<longrightarrow>
      (\<exists>b. Get sz pl = (b, pl) \<and> b_v b \<noteq> None \<and> int (go_len (b_v b)) = sint sz
           \<and> b_out b \<and> Len (Some b) = 0))"
  by (auto simp: Get_def New_def go_len_def word_sle_eq word_sless_alt Size_def
      split: prod.splits)

theorem Get_sized_witness:
  "(100 :: int32) \<le>s Size \<and> Get 100 [] = New [] \<and> \<not> b_out (fst (New []))
   \<and> Size <s (20000 :: int32)
   \<and> (\<exists>b. Get 20000 [] = (b, []) \<and> b_v b \<noteq> None \<and> int (go_len (b_v b)) = 20000
          \<and> b_out b \<and> Len (Some b) = 0)"
  using Get_sized [of 100 "[]"] Get_sized [of 20000 "[]"]
  by (simp add: word_sle_eq word_sless_alt Size_def)

section \<open>The flag \<open>out\<close>\<close>









section \<open>Preservation of the window invariant\<close>

lemma buffer_okD:
  "buffer_ok b \<Longrightarrow>
   0 \<le> sint (b_start b) \<and> sint (b_start b) \<le> sint (b_end b)
   \<and> sint (b_end b) \<le> int (go_len (b_v b)) \<and> int (go_len (b_v b)) < 2 ^ 31"
  by (simp add: buffer_ok_def window_inv_def fits_int32_def)

lemma buffer_okI:
  "0 \<le> sint (b_start b) \<Longrightarrow> sint (b_start b) \<le> sint (b_end b) \<Longrightarrow>
   sint (b_end b) \<le> int (go_len (b_v b)) \<Longrightarrow> int (go_len (b_v b)) < 2 ^ 31 \<Longrightarrow>
   buffer_ok b"
  by (simp add: buffer_ok_def window_inv_def fits_int32_def)

lemma sint_Len_inv:
  "window_inv b \<Longrightarrow> sint (Len (Some b)) = sint (b_end b) - sint (b_start b)"
  using sint_range32 [of "b_end b"] by (auto simp: window_inv_def sint_sub32)




lemma WriteByte_ok:
  assumes ok: "buffer_ok b" and r: "WriteByte b x = Inr (res, b')"
  shows "buffer_ok b'"
proof (cases "IsFull (Some b)")
  case True
  with r ok show ?thesis by (simp add: WriteByte_def)
next
  case False
  with r have lt: "sint (b_end b) < int (go_len (b_v b))"
    and b': "b' = b\<lparr>b_v := map_option (\<lambda>xs. xs[nat (sint (b_end b)) := x]) (b_v b),
                   b_end := b_end b + 1\<rparr>"
    by (auto simp: WriteByte_def Let_def split: if_splits)
  note d = buffer_okD [OF ok]
  have "sint (b_end b + 1) = sint (b_end b) + 1"
    using lt d by (subst sint_add32) simp_all
  with b' lt d show ?thesis by (auto intro!: buffer_okI)
qed














section \<open>Read\<close>

lemma Bytes_inv:
  "window_inv b \<Longrightarrow> \<exists>w. Bytes b = Inr w \<and> length w = nat (sint (Len (Some b)))"
  using sint_Len_inv [of b] by (auto simp: Bytes_def slice_def window_inv_def)

lemma Read_window:
  assumes ne: "Len (Some b) \<noteq> 0" and inv: "window_inv b"
  shows "\<exists>w. Bytes b = Inr w \<and> length w = nat (sint (Len (Some b)))
           \<and> Read b dst =
               Inr ((min (length dst) (length w), None),
                    take (min (length dst) (length w)) w
                      @ drop (min (length dst) (length w)) dst,
                    if min (length dst) (length w) = length w then Clear b
                    else b\<lparr>b_start := b_start b + of_nat (min (length dst) (length w))\<rparr>)
           \<and> sint (b_start b + of_nat (min (length dst) (length w)))
               = sint (b_start b) + int (min (length dst) (length w))"
proof -
  from Bytes_inv [OF inv] obtain w where bw: "Bytes b = Inr w"
    and lw: "length w = nat (sint (Len (Some b)))" by blast
  let ?n = "min (length dst) (length w)"
  have L: "sint (Len (Some b)) = sint (b_end b) - sint (b_start b)"
    by (rule sint_Len_inv [OF inv])
  from inv have d: "0 \<le> sint (b_start b)" "sint (b_start b) \<le> sint (b_end b)"
    by (simp_all add: window_inv_def)
  have r: "sint (b_end b) < 2 ^ 31" using sint_range32 [of "b_end b"] by simp
  have nle: "int ?n \<le> sint (Len (Some b))" using lw L d by auto
  then have nlt: "int ?n < 2 ^ 31" using L d r by linarith
  have sn: "sint (of_nat ?n :: int32) = int ?n" by (rule sint_of_nat32i [OF nlt])
  have eq: "((of_nat ?n :: int32) = Len (Some b)) = (?n = length w)"
    using sn lw L d by (auto simp: sint_inj32)
  have sadd: "sint (b_start b + of_nat ?n) = sint (b_start b) + int ?n"
    using nle L d r sn by (subst sint_add32) simp_all
  have rd: "Read b dst = Inr ((?n, None), take ?n w @ drop ?n dst,
              if ?n = length w then Clear b else b\<lparr>b_start := b_start b + of_nat ?n\<rparr>)"
    using ne bw eq unfolding Read_def Bytes_def
    by (simp add: go_copy_def Let_def)
  from bw lw rd sadd show ?thesis by blast
qed

text \<open>
  Claim C7, as the code has it. Read returns \<^verbatim>\<open>io.EOF\<close>, with count 0 and nothing
  changed, when the length of the buffer is 0, and returns no error when it is not; this
  much holds of every buffer. Read checks no cursor: the copy and the cursor movement
  are those of a buffer that satisfies the window invariant
  \<open>0 \<le> start \<le> end \<le> len(v)\<close>. On such a buffer that is not empty, with \<open>w\<close> its
  window and \<open>n\<close> the smaller of the lengths of the destination and of \<open>w\<close>: the call
  returns \<open>n\<close> and no error, the first \<open>n\<close> bytes of the destination are the first
  \<open>n\<close> bytes of \<open>w\<close> and the rest of it is untouched, and the region is as before; if
  \<open>n\<close> is the whole window then \<open>start = 0\<close> and \<open>end = 0\<close> afterwards, otherwise
  \<open>start\<close> has grown by exactly \<open>n\<close>, without wrap-around, and \<open>end\<close> is as before.
\<close>

theorem Read_contract:
  "(Len (Some b) = 0 \<longrightarrow> Read b dst = Inr ((0, Some EOF), dst, b))
   \<and> (Len (Some b) \<noteq> 0 \<longrightarrow> (\<forall>n e d b'. Read b dst \<noteq> Inr ((n, Some e), d, b')))
   \<and> (Len (Some b) \<noteq> 0 \<and> window_inv b \<longrightarrow>
        (\<exists>w b'. Bytes b = Inr w \<and> length w = nat (sint (Len (Some b)))
           \<and> Read b dst =
               Inr ((min (length dst) (length w), None),
                    take (min (length dst) (length w)) w
                      @ drop (min (length dst) (length w)) dst,
                    b')
           \<and> b_v b' = b_v b \<and> b_out b' = b_out b \<and> Endpoint b' = Endpoint b
           \<and> (min (length dst) (length w) = length w \<longrightarrow> b_start b' = 0 \<and> b_end b' = 0)
           \<and> (min (length dst) (length w) \<noteq> length w \<longrightarrow>
                 b_start b' = b_start b + of_nat (min (length dst) (length w))
                 \<and> sint (b_start b') = sint (b_start b) + int (min (length dst) (length w))
                 \<and> b_end b' = b_end b)))"
proof (intro conjI impI)
  assume "Len (Some b) = 0"
  then show "Read b dst = Inr ((0, Some EOF), dst, b)" by (simp add: Read_def)
next
  assume "Len (Some b) \<noteq> 0"
  then show "\<forall>n e d b'. Read b dst \<noteq> Inr ((n, Some e), d, b')"
    by (auto simp: Read_def Let_def case_prod_beta split: sum.splits if_splits)
next
  assume a: "Len (Some b) \<noteq> 0 \<and> window_inv b"
  then have inv: "window_inv b" and ne: "Len (Some b) \<noteq> 0" by simp_all
  from Read_window [OF ne inv, of dst] obtain w where bw: "Bytes b = Inr w"
    and lw: "length w = nat (sint (Len (Some b)))"
    and rd: "Read b dst =
               Inr ((min (length dst) (length w), None),
                    take (min (length dst) (length w)) w
                      @ drop (min (length dst) (length w)) dst,
                    if min (length dst) (length w) = length w then Clear b
                    else b\<lparr>b_start := b_start b + of_nat (min (length dst) (length w))\<rparr>)"
    and sadd: "sint (b_start b + of_nat (min (length dst) (length w)))
               = sint (b_start b) + int (min (length dst) (length w))"
    by blast
  let ?b' = "if min (length dst) (length w) = length w then Clear b
             else b\<lparr>b_start := b_start b + of_nat (min (length dst) (length w))\<rparr>"
  have f: "b_v ?b' = b_v b \<and> b_out ?b' = b_out b \<and> Endpoint ?b' = Endpoint b
           \<and> (min (length dst) (length w) = length w \<longrightarrow> b_start ?b' = 0 \<and> b_end ?b' = 0)
           \<and> (min (length dst) (length w) \<noteq> length w \<longrightarrow>
                 b_start ?b' = b_start b + of_nat (min (length dst) (length w))
                 \<and> sint (b_start ?b') = sint (b_start b) + int (min (length dst) (length w))
                 \<and> b_end ?b' = b_end b)"
    using sadd by (cases "min (length dst) (length w) = length w") (simp_all add: Clear_def)
  from bw lw rd f
  show "\<exists>w b'. Bytes b = Inr w \<and> length w = nat (sint (Len (Some b)))
           \<and> Read b dst =
               Inr ((min (length dst) (length w), None),
                    take (min (length dst) (length w)) w
                      @ drop (min (length dst) (length w)) dst,
                    b')
           \<and> b_v b' = b_v b \<and> b_out b' = b_out b \<and> Endpoint b' = Endpoint b
           \<and> (min (length dst) (length w) = length w \<longrightarrow> b_start b' = 0 \<and> b_end b' = 0)
           \<and> (min (length dst) (length w) \<noteq> length w \<longrightarrow>
                 b_start b' = b_start b + of_nat (min (length dst) (length w))
                 \<and> sint (b_start b') = sint (b_start b) + int (min (length dst) (length w))
                 \<and> b_end b' = b_end b)"
    by blast
qed

theorem Read_contract_witness:
  "Len (Some (Clear buf3)) = 0
   \<and> Read (Clear buf3) [0, 0] = Inr ((0, Some EOF), [0, 0], Clear buf3)
   \<and> Len (Some buf3) \<noteq> 0 \<and> window_inv buf3 \<and> Bytes buf3 = Inr [1, 2, 3]
   \<and> (\<exists>b'. Read buf3 [0, 0, 0, 0] = Inr ((3, None), [1, 2, 3, 0], b')
          \<and> b_start b' = 0 \<and> b_end b' = 0 \<and> b_v b' = b_v buf3)
   \<and> (\<exists>b'. Read buf3 [0, 0] = Inr ((2, None), [1, 2], b')
          \<and> sint (b_start b') = 2 \<and> b_end b' = 3 \<and> b_v b' = b_v buf3)"
proof -
  have h1: "Len (Some (Clear buf3)) = 0" by (simp add: Clear_def)
  have h2: "Len (Some buf3) \<noteq> 0 \<and> window_inv buf3"
    by (simp add: buf3_def window_inv_def go_len_def)
  have h3: "Bytes buf3 = Inr [1, 2, 3]"
    by (simp add: buf3_def Bytes_def slice_def elems_def)
  have s: "sint (b_start buf3) = 0" "b_end buf3 = 3" by (simp_all add: buf3_def)
  from Read_contract [of "Clear buf3" "[0, 0]"] h1
  have c1: "Read (Clear buf3) [0, 0] = Inr ((0, Some EOF), [0, 0], Clear buf3)" by blast
  from Read_contract [of buf3 "[0, 0, 0, 0]"] h2 h3
  have c2: "\<exists>b'. Read buf3 [0, 0, 0, 0] = Inr ((3, None), [1, 2, 3, 0], b')
          \<and> b_start b' = 0 \<and> b_end b' = 0 \<and> b_v b' = b_v buf3"
    by auto
  from Read_contract [of buf3 "[0, 0]"] h2 h3 s
  have c3: "\<exists>b'. Read buf3 [0, 0] = Inr ((2, None), [1, 2], b')
          \<and> sint (b_start b') = 2 \<and> b_end b' = 3 \<and> b_v b' = b_v buf3"
    by auto
  from h1 c1 h2 h3 c2 c3 show ?thesis by blast
qed

text \<open>
  Claim C7 as stated, for every buffer, fails. \<^verbatim>\<open>Advance(5)\<close> on \<open>buf3\<close> completes
  and leaves \<open>start = 5\<close>, \<open>end = 3\<close>: the length is \<open>-2\<close>, not 0, so Read goes past
  the \<^verbatim>\<open>io.EOF\<close> branch, and the slice expression \<^verbatim>\<open>b.v[5:3]\<close> panics. Nothing is
  copied and no cursor moves.
\<close>

theorem Read_broken_window_counterexample:
  "run [OpAdvance 5] (buf3, []) = Inr (buf3\<lparr>b_start := 5\<rparr>, [])
   \<and> sint (Len (Some (buf3\<lparr>b_start := 5\<rparr>))) = - 2
   \<and> Len (Some (buf3\<lparr>b_start := 5\<rparr>)) \<noteq> 0
   \<and> Read (buf3\<lparr>b_start := 5\<rparr>) [0, 0] = Inl SliceBounds"
  by (simp add: buf3_def Advance_def normalize_def word_sless_alt Read_def slice_def
      elems_def)


section \<open>WriteByte\<close>

lemma IsFull_if:
  assumes e: "sint (b_end b) = int (go_len (b_v b))"
  shows "IsFull (Some b)"
proof -
  have "int (go_len (b_v b)) < 2 ^ 31" using sint_range32 [of "b_end b"] e by simp
  then have "sint (of_nat (go_len (b_v b)) :: int32) = int (go_len (b_v b))"
    by (rule sint_of_nat32i)
  with e show "IsFull (Some b)" by (simp add: sint_inj32)
qed

lemma IsFull_iff:
  "fits_int32 b \<Longrightarrow> IsFull (Some b) \<longleftrightarrow> sint (b_end b) = int (go_len (b_v b))"
  by (auto simp: fits_int32_def sint_inj32 sint_of_nat32)

lemma WriteByte_full: "IsFull (Some b) \<Longrightarrow> WriteByte b x = Inr (Some BufferFull, b)"
  by (simp add: WriteByte_def)

lemma WriteByte_room:
  assumes nf: "\<not> IsFull (Some b)" and inv: "window_inv b"
  shows "WriteByte b x =
           Inr (None, b\<lparr>b_v := map_option (\<lambda>xs. xs[nat (sint (b_end b)) := x]) (b_v b),
                         b_end := b_end b + 1\<rparr>)"
proof -
  from inv have d: "0 \<le> sint (b_end b)" "sint (b_end b) \<le> int (go_len (b_v b))"
    by (simp_all add: window_inv_def)
  from nf IsFull_if [of b] have "sint (b_end b) \<noteq> int (go_len (b_v b))" by blast
  with d have lt: "sint (b_end b) < int (go_len (b_v b))" by simp
  with nf d show ?thesis
    by (simp add: WriteByte_def Let_def del: IsFull.simps)
qed

lemma sint_end_succ:
  assumes nf: "\<not> IsFull (Some b)" and ok: "buffer_ok b"
  shows "sint (b_end b + 1) = sint (b_end b) + 1"
proof -
  note d = buffer_okD [OF ok]
  from nf IsFull_if [of b] have "sint (b_end b) \<noteq> int (go_len (b_v b))" by blast
  with d show ?thesis by (subst sint_add32) simp_all
qed

lemma WriteByte_len:
  "WriteByte b x = Inr (r, b') \<Longrightarrow> go_len (b_v b') = go_len (b_v b)"
  by (auto simp: WriteByte_def Let_def split: if_splits)

lemma WriteByte_repeat_room:
  "buffer_ok b \<Longrightarrow> int (length xs) \<le> int (go_len (b_v b)) - sint (b_end b) \<Longrightarrow>
   \<exists>b'. WriteByte_repeat xs b = Inr (length xs, None, b') \<and> buffer_ok b'
        \<and> go_len (b_v b') = go_len (b_v b) \<and> b_start b' = b_start b
        \<and> sint (b_end b') = sint (b_end b) + int (length xs)"
proof (induction xs arbitrary: b)
  case Nil
  then show ?case by simp
next
  case (Cons x xs)
  let ?b1 = "b\<lparr>b_v := map_option (\<lambda>ys. ys[nat (sint (b_end b)) := x]) (b_v b),
                b_end := b_end b + 1\<rparr>"
  from Cons.prems have ok: "buffer_ok b" and inv: "window_inv b" and fit: "fits_int32 b"
    by (simp_all add: buffer_ok_def)
  from Cons.prems(2) IsFull_iff [OF fit] have nf: "\<not> IsFull (Some b)" by auto
  from WriteByte_room [OF nf inv] have w: "WriteByte b x = Inr (None, ?b1)" .
  from WriteByte_ok [OF ok w] have ok1: "buffer_ok ?b1" .
  from sint_end_succ [OF nf ok] have e1: "sint (b_end ?b1) = sint (b_end b) + 1" by simp
  have g1: "go_len (b_v ?b1) = go_len (b_v b)" by simp
  from Cons.prems(2) e1 g1
  have "int (length xs) \<le> int (go_len (b_v ?b1)) - sint (b_end ?b1)"
    by simp
  from Cons.IH [OF ok1 this] obtain b' where
    r: "WriteByte_repeat xs ?b1 = Inr (length xs, None, b')" and ok': "buffer_ok b'"
    and g': "go_len (b_v b') = go_len (b_v ?b1)" and s': "b_start b' = b_start ?b1"
    and e': "sint (b_end b') = sint (b_end ?b1) + int (length xs)"
    by blast
  from w r have "WriteByte_repeat (x # xs) b = Inr (length (x # xs), None, b')" by simp
  with ok' g' s' e' e1 show ?case by auto
qed

lemma WriteByte_repeat_append:
  "WriteByte_repeat xs b = Inr (length xs, None, b') \<Longrightarrow>
   WriteByte_repeat (xs @ ys) b =
     (case WriteByte_repeat ys b' of
        Inl e \<Rightarrow> Inl e
      | Inr (k, err, b'') \<Rightarrow> Inr (length xs + k, err, b''))"
proof (induction xs arbitrary: b)
  case Nil
  then show ?case by (auto split: sum.splits)
next
  case (Cons x xs)
  then show ?case by (auto split: sum.splits option.splits)
qed

lemma New_pool_ok:
  "pool_ok pl \<Longrightarrow>
   buffer_ok (fst (New pl)) \<and> go_len (b_v (fst (New pl))) = 8192
   \<and> b_start (fst (New pl)) = 0 \<and> b_end (fst (New pl)) = 0 \<and> \<not> b_out (fst (New pl))"
  by (auto simp: New_def pool_Get_def pool_ok_def Size_def go_len_def buffer_ok_def
      window_inv_def fits_int32_def split: list.splits option.splits)

lemma WriteByte_fill_pool:
  assumes p: "pool_ok pl" and l: "length xs = 8192"
  shows "\<exists>bf. WriteByte_repeat xs (fst (New pl)) = Inr (8192, None, bf)
           \<and> IsFull (Some bf) \<and> go_len (b_v bf) = 8192
           \<and> WriteByte bf y = Inr (Some BufferFull, bf)
           \<and> WriteByte_repeat (xs @ y # ys) (fst (New pl)) = Inr (8192, Some BufferFull, bf)"
proof -
  let ?b = "fst (New pl)"
  from New_pool_ok [OF p] have ok: "buffer_ok ?b" and g: "go_len (b_v ?b) = 8192"
    and e: "b_end ?b = 0" by simp_all
  from l g e have "int (length xs) \<le> int (go_len (b_v ?b)) - sint (b_end ?b)" by simp
  from WriteByte_repeat_room [OF ok this] obtain bf where
    r: "WriteByte_repeat xs ?b = Inr (length xs, None, bf)" and ok': "buffer_ok bf"
    and g': "go_len (b_v bf) = go_len (b_v ?b)"
    and e': "sint (b_end bf) = sint (b_end ?b) + int (length xs)"
    by blast
  from e' e l g g' have "sint (b_end bf) = int (go_len (b_v bf))" by simp
  then have full: "IsFull (Some bf)" by (rule IsFull_if)
  then have w: "WriteByte bf y = Inr (Some BufferFull, bf)" by (rule WriteByte_full)
  from WriteByte_repeat_append [OF r, of "y # ys"] w l
  have "WriteByte_repeat (xs @ y # ys) ?b = Inr (8192, Some BufferFull, bf)" by simp
  with r l full g g' w show ?thesis by auto
qed

lemma WriteByte_in_region:
  assumes nf: "\<not> IsFull (Some b)"
    and lo: "0 \<le> sint (b_end b)" and hi: "sint (b_end b) < int (go_len (b_v b))"
  shows "WriteByte b x =
           Inr (None, b\<lparr>b_v := map_option (\<lambda>xs. xs[nat (sint (b_end b)) := x]) (b_v b),
                         b_end := b_end b + 1\<rparr>)"
  using nf lo hi by (simp add: WriteByte_def Let_def del: IsFull.simps)

lemma WriteByte_outside:
  assumes nf: "\<not> IsFull (Some b)"
    and out: "\<not> (0 \<le> sint (b_end b) \<and> sint (b_end b) < int (go_len (b_v b)))"
  shows "WriteByte b x = Inl IndexRange"
  using nf out by (simp add: WriteByte_def Let_def del: IsFull.simps)

text \<open>
  Claim C8, as the code has it. WriteByte returns the buffer-full error, and the buffer
  as it was, when IsFull holds, and returns no error when it does not; IsFull compares
  \<open>end\<close> with \<^verbatim>\<open>int32(len(b.v))\<close>, which says that \<open>end\<close> is the length of the region
  when that length is a value of \<^verbatim>\<open>int32\<close>. WriteByte checks no cursor: on a buffer
  that is not full it stores the byte at offset \<open>end\<close> and adds one to \<open>end\<close> when
  \<open>0 \<le> end < len(v)\<close>, as on every buffer that satisfies the window invariant (there
  without wrap-around when the length of the region is a value of \<^verbatim>\<open>int32\<close>), and it
  panics at the index expression otherwise. No call changes the length of the region.
  On a buffer fresh from a pool whose regions have 8192 bytes, 8192 calls in a row
  succeed, the buffer is then full, and the next call returns the buffer-full error: of
  any 8193 or more calls exactly the first 8192 succeed.
\<close>

theorem WriteByte_contract:
  "(IsFull (Some b) \<longrightarrow> WriteByte b x = Inr (Some BufferFull, b))
   \<and> (\<not> IsFull (Some b) \<longrightarrow> (\<forall>e b'. WriteByte b x \<noteq> Inr (Some e, b')))
   \<and> (\<not> IsFull (Some b) \<and> 0 \<le> sint (b_end b) \<and> sint (b_end b) < int (go_len (b_v b)) \<longrightarrow>
        WriteByte b x =
          Inr (None, b\<lparr>b_v := map_option (\<lambda>xs. xs[nat (sint (b_end b)) := x]) (b_v b),
                        b_end := b_end b + 1\<rparr>))
   \<and> (\<not> IsFull (Some b)
        \<and> \<not> (0 \<le> sint (b_end b) \<and> sint (b_end b) < int (go_len (b_v b))) \<longrightarrow>
        WriteByte b x = Inl IndexRange)
   \<and> (\<not> IsFull (Some b) \<and> window_inv b \<longrightarrow>
        sint (b_end b) < int (go_len (b_v b))
        \<and> WriteByte b x =
          Inr (None, b\<lparr>b_v := map_option (\<lambda>xs. xs[nat (sint (b_end b)) := x]) (b_v b),
                        b_end := b_end b + 1\<rparr>))
   \<and> (\<not> IsFull (Some b) \<and> window_inv b \<and> fits_int32 b \<longrightarrow>
        sint (b_end b + 1) = sint (b_end b) + 1)
   \<and> (fits_int32 b \<longrightarrow> IsFull (Some b) = (sint (b_end b) = int (go_len (b_v b))))
   \<and> (\<forall>r b'. WriteByte b x = Inr (r, b') \<longrightarrow> go_len (b_v b') = go_len (b_v b))
   \<and> (pool_ok pl \<and> length xs = 8192 \<longrightarrow>
        (\<exists>bf. WriteByte_repeat xs (fst (New pl)) = Inr (8192, None, bf)
           \<and> IsFull (Some bf) \<and> go_len (b_v bf) = 8192
           \<and> WriteByte bf y = Inr (Some BufferFull, bf)
           \<and> WriteByte_repeat (xs @ y # ys) (fst (New pl))
               = Inr (8192, Some BufferFull, bf)))"
proof (intro conjI impI allI)
  assume "IsFull (Some b)"
  then show "WriteByte b x = Inr (Some BufferFull, b)" by (rule WriteByte_full)
next
  fix e b'
  assume "\<not> IsFull (Some b)"
  then show "WriteByte b x \<noteq> Inr (Some e, b')"
    by (auto simp: WriteByte_def Let_def simp del: IsFull.simps)
next
  assume "\<not> IsFull (Some b) \<and> 0 \<le> sint (b_end b) \<and> sint (b_end b) < int (go_len (b_v b))"
  then show "WriteByte b x =
          Inr (None, b\<lparr>b_v := map_option (\<lambda>xs. xs[nat (sint (b_end b)) := x]) (b_v b),
                        b_end := b_end b + 1\<rparr>)"
    using WriteByte_in_region [of b x] by simp
next
  assume "\<not> IsFull (Some b)
        \<and> \<not> (0 \<le> sint (b_end b) \<and> sint (b_end b) < int (go_len (b_v b)))"
  then show "WriteByte b x = Inl IndexRange"
    using WriteByte_outside [of b x] by simp
next
  assume a: "\<not> IsFull (Some b) \<and> window_inv b"
  with IsFull_if [of b] have "sint (b_end b) \<noteq> int (go_len (b_v b))" by blast
  with a show "sint (b_end b) < int (go_len (b_v b))" by (simp add: window_inv_def)
next
  assume "\<not> IsFull (Some b) \<and> window_inv b"
  then show "WriteByte b x =
          Inr (None, b\<lparr>b_v := map_option (\<lambda>xs. xs[nat (sint (b_end b)) := x]) (b_v b),
                        b_end := b_end b + 1\<rparr>)"
    using WriteByte_room [of b x] by simp
next
  assume "\<not> IsFull (Some b) \<and> window_inv b \<and> fits_int32 b"
  then show "sint (b_end b + 1) = sint (b_end b) + 1"
    using sint_end_succ [of b] by (simp add: buffer_ok_def)
next
  assume "fits_int32 b"
  then show "IsFull (Some b) = (sint (b_end b) = int (go_len (b_v b)))" by (rule IsFull_iff)
next
  fix r b'
  assume "WriteByte b x = Inr (r, b')"
  then show "go_len (b_v b') = go_len (b_v b)" by (rule WriteByte_len)
next
  assume "pool_ok pl \<and> length xs = 8192"
  then show "\<exists>bf. WriteByte_repeat xs (fst (New pl)) = Inr (8192, None, bf)
           \<and> IsFull (Some bf) \<and> go_len (b_v bf) = 8192
           \<and> WriteByte bf y = Inr (Some BufferFull, bf)
           \<and> WriteByte_repeat (xs @ y # ys) (fst (New pl)) = Inr (8192, Some BufferFull, bf)"
    using WriteByte_fill_pool [of pl xs y ys] by simp
qed

theorem WriteByte_contract_witness:
  "IsFull (Some buf3) \<and> WriteByte buf3 7 = Inr (Some BufferFull, buf3)
   \<and> fits_int32 buf3 \<and> sint (b_end buf3) = int (go_len (b_v buf3))
   \<and> \<not> IsFull (Some fresh) \<and> window_inv fresh \<and> fits_int32 fresh
   \<and> 0 \<le> sint (b_end fresh) \<and> sint (b_end fresh) < int (go_len (b_v fresh))
   \<and> WriteByte fresh 7 =
        Inr (None, fresh\<lparr>b_v := map_option (\<lambda>xs. xs[nat (sint (b_end fresh)) := 7])
                                   (b_v fresh),
                          b_end := b_end fresh + 1\<rparr>)
   \<and> sint (b_end fresh + 1) = sint (b_end fresh) + 1
   \<and> \<not> IsFull (Some (buf3\<lparr>b_end := 10\<rparr>))
   \<and> \<not> (0 \<le> sint (b_end (buf3\<lparr>b_end := 10\<rparr>))
         \<and> sint (b_end (buf3\<lparr>b_end := 10\<rparr>)) < int (go_len (b_v (buf3\<lparr>b_end := 10\<rparr>))))
   \<and> WriteByte (buf3\<lparr>b_end := 10\<rparr>) 7 = Inl IndexRange
   \<and> pool_ok [] \<and> length (replicate 8192 (0 :: byte)) = 8192
   \<and> (\<exists>bf. WriteByte_repeat (replicate 8192 0) (fst (New [])) = Inr (8192, None, bf)
          \<and> IsFull (Some bf) \<and> go_len (b_v bf) = 8192
          \<and> WriteByte bf 7 = Inr (Some BufferFull, bf)
          \<and> WriteByte_repeat (replicate 8192 0 @ [7]) (fst (New []))
              = Inr (8192, Some BufferFull, bf))"
proof -
  have h1: "IsFull (Some buf3) \<and> fits_int32 buf3"
    by (simp add: buf3_def go_len_def fits_int32_def)
  have h2: "\<not> IsFull (Some fresh) \<and> window_inv fresh \<and> fits_int32 fresh
            \<and> 0 \<le> sint (b_end fresh) \<and> sint (b_end fresh) < int (go_len (b_v fresh))"
    by (simp add: fresh_eq go_len_def window_inv_def fits_int32_def)
  have h3: "pool_ok [] \<and> length (replicate 8192 (0 :: byte)) = 8192"
    by (simp add: pool_ok_def)
  have h4: "\<not> IsFull (Some (buf3\<lparr>b_end := 10\<rparr>))
   \<and> \<not> (0 \<le> sint (b_end (buf3\<lparr>b_end := 10\<rparr>))
         \<and> sint (b_end (buf3\<lparr>b_end := 10\<rparr>)) < int (go_len (b_v (buf3\<lparr>b_end := 10\<rparr>))))"
    by (simp add: buf3_def go_len_def)
  from WriteByte_contract [of buf3 7] h1
  have c1: "WriteByte buf3 7 = Inr (Some BufferFull, buf3)
            \<and> sint (b_end buf3) = int (go_len (b_v buf3))" by blast
  from WriteByte_contract [of "buf3\<lparr>b_end := 10\<rparr>" 7] h4
  have c4: "WriteByte (buf3\<lparr>b_end := 10\<rparr>) 7 = Inl IndexRange" by blast
  from WriteByte_contract [of fresh 7 "[]" "replicate 8192 0" 7 "[]"] h1 h2 h3 h4 c1 c4
  show ?thesis by blast
qed

text \<open>
  Claim C8 as stated, for every buffer, fails. \<^verbatim>\<open>Resize(0, 10)\<close> on \<open>buf3\<close> completes
  and leaves \<open>end = 10\<close> with a region of 3 bytes: IsFull is false, and WriteByte panics
  at \<^verbatim>\<open>b.v[10] = v\<close> where the claim has it store the byte. And IsFull does not say
  that \<open>end\<close> equals the capacity on every buffer: over a region of \<open>2^32\<close> bytes
  \<^verbatim>\<open>int32(len(b.v))\<close> is 0, so the empty buffer \<open>huge\<close> is full and WriteByte returns
  the buffer-full error.
\<close>

theorem WriteByte_past_region_counterexample:
  "run [OpResize 0 10] (buf3, []) = Inr (buf3\<lparr>b_end := 10\<rparr>, [])
   \<and> \<not> IsFull (Some (buf3\<lparr>b_end := 10\<rparr>))
   \<and> WriteByte (buf3\<lparr>b_end := 10\<rparr>) 7 = Inl IndexRange
   \<and> go_len (b_v huge) = 4294967296 \<and> b_end huge = 0
   \<and> IsFull (Some huge)
   \<and> WriteByte huge 7 = Inr (Some BufferFull, huge)"
  by (simp add: buf3_def huge_def As_def Resize_def normalize_def word_sless_alt
      WriteByte_def go_len_def)


section \<open>From and Read\<close>

lemma Require_empty:
  assumes z: "b_start b = 0" "b_end b = 0" and n: "int n < 2 ^ 31"
  shows "\<exists>b1 pl1. Require b (of_nat n) pl = Inr (b1, pl1) \<and> b_start b1 = 0 \<and> b_end b1 = 0
           \<and> n \<le> go_len (b_v b1) \<and> (n > 0 \<longrightarrow> b_v b1 \<noteq> None)"
proof (cases "(of_nat n :: int32) \<le>s of_nat (go_len (b_v b))")
  case True
  have sn: "sint (of_nat n :: int32) = int n" by (rule sint_of_nat32i [OF n])
  with True have le: "int n \<le> sint (of_nat (go_len (b_v b)) :: int32)"
    by (simp add: word_sle_eq)
  then have "0 \<le> sint (of_nat (go_len (b_v b)) :: int32)" by simp
  from sint_of_nat_le [OF this] le have "n \<le> go_len (b_v b)" by simp
  moreover from this have "n > 0 \<longrightarrow> b_v b \<noteq> None"
    by (auto simp: go_len_def split: option.splits)
  ultimately show ?thesis using True z by (simp add: Require_def)
next
  case False
  have sn: "sint (of_nat n :: int32) = int n" by (rule sint_of_nat32i [OF n])
  with False z show ?thesis
    by (simp add: Require_def Let_def slice_def word_sless_alt go_len_def)
qed

lemma Write_empty:
  assumes z: "b_start b = 0" "b_end b = 0" and n: "int (length data) < 2 ^ 31"
  shows "\<exists>b' pl'. Write b data pl = Inr ((length data, None), b', pl') \<and> b_start b' = 0
           \<and> b_end b' = of_nat (length data)
           \<and> take (length data) (elems (b_v b')) = data
           \<and> length data \<le> go_len (b_v b')"
proof -
  from Require_empty [OF z n, of pl] obtain b1 pl1 where
    rq: "Require b (of_nat (length data)) pl = Inr (b1, pl1)"
    and z1: "b_start b1 = 0" "b_end b1 = 0"
    and le: "length data \<le> go_len (b_v b1)"
    and nn: "length data > 0 \<longrightarrow> b_v b1 \<noteq> None"
    by blast
  show ?thesis
  proof (cases "b_v b1")
    case None
    with nn have "data = []" by simp
    with rq z z1 None show ?thesis
      by (simp add: Write_def slice_def go_copy_def store_def go_len_def elems_def)
  next
    case (Some xs)
    with le have lx: "length data \<le> length xs" by (simp add: go_len_def)
    with rq z z1 Some show ?thesis
      by (simp add: Write_def slice_def go_copy_def store_def go_len_def elems_def Let_def
          min_def)
  qed
qed

lemma From_window:
  assumes n: "int (length data) < 2 ^ 31"
  shows "\<exists>b pl'. From data pl = Inr (b, pl') \<and> b_start b = 0
           \<and> b_end b = of_nat (length data)
           \<and> take (length data) (elems (b_v b)) = data \<and> length data \<le> go_len (b_v b)"
proof -
  obtain b0 pl0 where g: "Get (of_nat (length data)) pl = (b0, pl0)"
    by (cases "Get (of_nat (length data)) pl")
  then have z: "b_start b0 = 0" "b_end b0 = 0"
    by (auto simp: Get_def New_def case_prod_beta split: if_splits)
  from Write_empty [OF z n, of pl0] g show ?thesis
    by (auto simp: From_def)
qed

text \<open>
  Claim C6, as the code has it. \<^verbatim>\<open>From\<close> passes \<^verbatim>\<open>int32(len(data))\<close> to \<^verbatim>\<open>Get\<close>, so
  the round trip is that of byte sequences whose length is a value of \<^verbatim>\<open>int32\<close>.
  For every such sequence and every pool, \<^verbatim>\<open>From(data)\<close> completes and its window is
  \<open>data\<close>; one Read into a destination of the same length returns the count
  \<open>len(data)\<close>, leaves exactly \<open>data\<close> in the destination, and leaves the buffer with
  length 0. (For the empty sequence the count is 0 and the error is \<^verbatim>\<open>io.EOF\<close>.)
\<close>

theorem From_Read_roundtrip:
  assumes n: "length data < 2 ^ 31" and l: "length dst = length data"
  shows "\<exists>b pl' e b'. From data pl = Inr (b, pl') \<and> Bytes b = Inr data
           \<and> Read b dst = Inr ((length data, e), data, b') \<and> Len (Some b') = 0"
proof -
  from n have ni: "int (length data) < 2 ^ 31" by simp
  from From_window [OF ni, of pl] obtain b pl' where
    f: "From data pl = Inr (b, pl')" and s: "b_start b = 0"
    and e: "b_end b = of_nat (length data)"
    and t: "take (length data) (elems (b_v b)) = data"
    and le: "length data \<le> go_len (b_v b)"
    by blast
  have se: "sint (b_end b) = int (length data)" using e sint_of_nat32i [OF ni] by simp
  have bb: "Bytes b = Inr data" using s se t le by (simp add: Bytes_def slice_def)
  show ?thesis
  proof (cases "data = []")
    case True
    with f bb s e l show ?thesis by (simp add: Read_def)
  next
    case False
    then have "sint (b_end b) \<noteq> 0" using se by simp
    then have ne: "b_end b \<noteq> 0" by auto
    have "Read b dst = Inr ((length data, None), data, Clear b)"
      using ne bb s e l unfolding Read_def Bytes_def
      by (simp add: go_copy_def Let_def)
    with f bb show ?thesis by (simp add: Clear_def)
  qed
qed

theorem From_Read_roundtrip_witness:
  "length [1, 2, 3 :: byte] < 2 ^ 31 \<and> length [0, 0, 0 :: byte] = length [1, 2, 3 :: byte]
   \<and> (\<exists>b pl' e b'. From [1, 2, 3] [] = Inr (b, pl') \<and> Bytes b = Inr [1, 2, 3]
         \<and> Read b [0, 0, 0] = Inr ((length [1, 2, 3 :: byte], e), [1, 2, 3], b')
         \<and> Len (Some b') = 0)"
proof -
  have h1: "length [1, 2, 3 :: byte] < 2 ^ 31" by simp
  have h2: "length [0, 0, 0 :: byte] = length [1, 2, 3 :: byte]" by simp
  from From_Read_roundtrip [OF h1 h2, of "[]"] h1 h2 show ?thesis by blast
qed

text \<open>
  Claim C6 as stated, for every byte sequence, fails at a sequence of \<open>2^31\<close> bytes:
  \<^verbatim>\<open>int32(len(data))\<close> is then \<open>-2^31\<close>, \<^verbatim>\<open>Get\<close> takes a pool region of 8192 bytes,
  \<^verbatim>\<open>Require\<close> sees nothing to do, and \<^verbatim>\<open>Write\<close> copies the 8192 bytes that fit. The
  Read that follows returns 8192 bytes; the destination byte at offset 8192 is not the
  one that was passed to \<^verbatim>\<open>From\<close>.
\<close>

theorem From_truncates_counterexample:
  "From (replicate 2147483648 1) [] = Inr (truncated, [])
   \<and> Read truncated (replicate 2147483648 0)
       = Inr ((8192, None), replicate 8192 1 @ replicate 2147475456 0, Clear truncated)
   \<and> (replicate 8192 1 @ replicate 2147475456 0) ! 8192 = (0 :: byte)
   \<and> replicate 2147483648 (1 :: byte) ! 8192 = 1"
  by (simp add: From_def Get_def New_def pool_Get_def Size_def Write_def Require_def
      truncated_def word_sle_eq go_len_def elems_def slice_def go_copy_def store_def
      Read_def Clear_def nth_append)

section \<open>Require\<close>

text \<open>What Require leaves when it allocates: the window of the new region is all zero,
  whatever the window held before.\<close>

lemma Require_growth_window:
  assumes inv: "window_inv b" and g: "\<not> n \<le>s of_nat (go_len (b_v b))"
    and r: "Require b n pl = Inr (b', pl')"
  shows "Bytes b' = Inr (replicate (nat (sint (Len (Some b)))) 0)
         \<and> int (go_len (b_v b')) = sint n
         \<and> b_out b' \<and> b_start b' = b_start b \<and> b_end b' = b_end b"
proof -
  let ?nb = "replicate (nat (sint n)) (0 :: byte)"
  from g r have pos: "0 \<le> sint n"
    by (auto simp: Require_def word_sless_alt split: if_splits)
  from g r obtain src where
    s2: "slice ?nb (sint (b_start b)) (sint (b_end b)) = Inr src"
    and b': "b' = b\<lparr>b_out := True, b_v := Some ?nb\<rparr>
             \<or> (b_out b \<and> b' = b\<lparr>b_v := Some ?nb\<rparr>)"
    by (auto simp: Require_def Let_def word_sless_alt split: if_splits sum.splits)
  from slice_Inr [OF s2] have e: "sint (b_end b) \<le> int (nat (sint n))" by simp
  from b' e inv pos sint_Len_inv [OF inv] show ?thesis
    by (auto simp: Bytes_def slice_def window_inv_def go_len_def elems_def)
qed

text \<open>
  Claim C1, evaluated on the code. A pool buffer of 8192 bytes holds the window
  \<open>[1, 2, 3]\<close>. \<^verbatim>\<open>Require(8193)\<close> allocates 8193 bytes, all zero, and calls
  \<^verbatim>\<open>copy(b.v[b.start:b.end], nb[b.start:b.end])\<close>, whose destination is the old
  region: the three zero bytes of the new region overwrite the window of the old one,
  which then goes to the pool. The window of the buffer after the call is \<open>[0, 0, 0]\<close>.
  The same happens inside a second Write that has to grow the region: the bytes written
  first read back as zero.
\<close>

theorem Require_growth_zeroes_window:
  "Write fresh [1, 2, 3] [] = Inr ((3, None), written3, [])
   \<and> Bytes written3 = Inr [1, 2, 3]
   \<and> Require written3 8193 [] = Inr (grown3, [Some ([0, 0, 0] @ replicate 8189 0)])
   \<and> Bytes grown3 = Inr [0, 0, 0]
   \<and> Write written3 (replicate 8190 7) []
       = Inr ((8190, None), regrown, [Some ([0, 0, 0] @ replicate 8189 0)])
   \<and> Bytes regrown = Inr ([0, 0, 0] @ replicate 8190 7)"
  by (simp add: fresh_eq Write_def Require_def written3_def grown3_def regrown_def
      word_sle_eq word_sless_alt go_len_def elems_def slice_def go_copy_def store_def
      Bytes_def pool_Put_def numeral_3_eq_3)

end
